theory Spec2Isabelle
  imports Main "HOL-Library.Sublist"
begin

section \<open>Data model\<close>

text \<open>
  The development embeds \<^verbatim>\<open>createPrismaRedisCacheExtension\<close> of
  \<^verbatim>\<open>src/extension.ts\<close>: the construction-time constants and the
  \<^verbatim>\<open>$allOperations\<close> hook. JavaScript strings are \<open>string\<close>, optional
  fields are \<open>option\<close>, a rejected promise or a thrown exception is \<open>Inl\<close> of a
  sum, and the mutable objects the hook touches (the properties that
  \<^verbatim>\<open>cache.define\<close> adds to \<^verbatim>\<open>cache\<close>, the backing store, the
  database behind \<^verbatim>\<open>params.query\<close>, the console) are the fields of an explicit
  world that every function takes and returns. Operations carry an entity type name,
  and no entity type is named like a member of the cache object itself
  (\<^verbatim>\<open>define\<close>, \<^verbatim>\<open>clear\<close>, ...).
\<close>

type_synonym error = string
type_synonym payload = string
type_synonym tag = string

text \<open>One element of the \<^verbatim>\<open>models\<close> option, as destructured at line 54.\<close>

record rule =
  model :: string
  cacheTime :: "int option"
  cacheKey :: "string option"
  excludeMethods :: "string list option"
  invalidateRelated :: "string list option"

text \<open>
  The options of \<^verbatim>\<open>createPrismaRedisCacheExtension\<close> that the hook reads. The two
  global options whose names coincide with fields of a rule carry the prefix \<open>global\<close>.
\<close>

record config =
  models :: "rule list option"
  globalCacheTime :: "int option"
  excludeModels :: "string list option"
  globalExcludeMethods :: "string list option"

text \<open>
  The \<^verbatim>\<open>params\<close> of one intercepted operation. \<open>notNullModel\<close> is
  \<^verbatim>\<open>params.model as string\<close>; \<open>query\<close> is the real executor, a computation on
  the database that resolves (\<open>Inr\<close>) or rejects (\<open>Inl\<close>).
\<close>

record 'db params =
  notNullModel :: string
  operation :: string
  args :: string
  query :: "string \<Rightarrow> 'db \<Rightarrow> (error + payload) \<times> 'db"

text \<open>
  What \<^verbatim>\<open>cache.define\<close> closes over for one entity type: the prefix used by
  \<^verbatim>\<open>references\<close> and the time to live.
\<close>

record binding =
  tagKey :: string
  ttl :: int

text \<open>
  Calls to the collaborators, in program order. \<open>QueryCalled\<close> is the call
  \<^verbatim>\<open>params.query(params.args)\<close>, which starts the real executor and returns a
  pending promise; \<open>QueryAwaited\<close> is the point where the hook waits for that promise
  to settle (an \<^verbatim>\<open>await\<close>, or the \<^verbatim>\<open>return\<close> of the promise from the
  async hook).
\<close>

datatype event =
    Define string
  | QueryCalled
  | QueryAwaited
  | StoreGet tag
  | StoreSet tag
  | InvalidateAll string
  | ConsoleError error
  | ConsoleLog string

record 'db world =
  registry :: "string \<rightharpoonup> binding"
  store :: "tag \<rightharpoonup> payload"
  db :: 'db
  trace :: "event list"

text \<open>
  The failures of the backing store during one invocation of the hook: a lookup that
  throws, a write that throws, and the wildcard deletions that throw, by pattern.
\<close>

record faults =
  getFault :: "error option"
  setFault :: "error option"
  invalidateFault :: "string \<Rightarrow> error option"

text \<open>
  The imports of \<^verbatim>\<open>./cacheMethods\<close> and the key serialisation of the
  deduplication engine are not part of the embedded file; they are parameters.
\<close>

record env =
  defaultCacheMethods :: "string list"
  defaultMutationMethods :: "string list"
  serialize :: "string \<Rightarrow> string \<Rightarrow> string \<Rightarrow> string"

section \<open>JavaScript idioms\<close>

text \<open>\<^verbatim>\<open>xs?.includes(x)\<close>: \<^verbatim>\<open>undefined\<close> is falsy.\<close>

definition includesOpt :: "'a list option \<Rightarrow> 'a \<Rightarrow> bool" where
  "includesOpt xs x = (case xs of None \<Rightarrow> False | Some ys \<Rightarrow> x \<in> set ys)"

text \<open>\<^verbatim>\<open>a || b\<close> on an optional string: the empty string is falsy.\<close>

definition strOr :: "string option \<Rightarrow> string \<Rightarrow> string" where
  "strOr a b = (case a of None \<Rightarrow> b | Some s \<Rightarrow> if s = [] then b else s)"

text \<open>\<^verbatim>\<open>a || b\<close> on an optional number: zero is falsy.\<close>

definition numOr :: "int option \<Rightarrow> int \<Rightarrow> int" where
  "numOr a b = (case a of None \<Rightarrow> b | Some n \<Rightarrow> if n = 0 then b else n)"

text \<open>\<^verbatim>\<open>xs || []\<close> and a destructuring default \<^verbatim>\<open>xs = []\<close>.\<close>

definition orEmpty :: "'a list option \<Rightarrow> 'a list" where
  "orEmpty xs = (case xs of None \<Rightarrow> [] | Some ys \<Rightarrow> ys)"

section \<open>Construction-time constants\<close>

definition DEFAULT_CACHE_TIME :: int where
  "DEFAULT_CACHE_TIME = 0"

text \<open>\<^verbatim>\<open>cacheOptions.ttl\<close>: the \<^verbatim>\<open>cacheTime\<close> option with its default (lines 21, 33).\<close>

definition cacheOptions_ttl :: "config \<Rightarrow> int" where
  "cacheOptions_ttl cfg = (case globalCacheTime cfg of None \<Rightarrow> DEFAULT_CACHE_TIME | Some t \<Rightarrow> t)"

text \<open>Lines 40-42.\<close>

definition excludedCacheMethods :: "env \<Rightarrow> config \<Rightarrow> string list" where
  "excludedCacheMethods e cfg =
     filter (\<lambda>cacheMethod. cacheMethod \<in> set (orEmpty (globalExcludeMethods cfg)))
       (defaultCacheMethods e)"

section \<open>The collaborators\<close>

text \<open>
  Modelled from the spec: the deduplication engine and the tag store are external. A
  pattern deletes by wildcard, \<open>*\<close> standing for any run of characters.
\<close>

fun wildcardMatch :: "string \<Rightarrow> string \<Rightarrow> bool" where
  "wildcardMatch [] t = (t = [])"
| "wildcardMatch (c # cs) [] = (c = CHR ''*'' \<and> wildcardMatch cs [])"
| "wildcardMatch (c # cs) (x # xs) =
     (if c = CHR ''*'' then wildcardMatch cs (x # xs) \<or> wildcardMatch (c # cs) xs
      else c = x \<and> wildcardMatch cs xs)"

text \<open>
  Modelled from the spec: \<^verbatim>\<open>cache.define(name, opts, fn)\<close> installs the binding as
  the property \<open>name\<close> of the cache object; options without a \<^verbatim>\<open>ttl\<close> take the
  default the cache was created with.
\<close>

definition cache_define :: "string \<Rightarrow> string \<Rightarrow> int option \<Rightarrow> int \<Rightarrow> 'db world \<Rightarrow> 'db world" where
  "cache_define name tk t dflt w =
     w\<lparr>registry := (registry w)(name \<mapsto> \<lparr>tagKey = tk, ttl = (case t of None \<Rightarrow> dflt | Some n \<Rightarrow> n)\<rparr>),
       trace := trace w @ [Define name]\<rparr>"

text \<open>
  Modelled from the spec: \<^verbatim>\<open>cache.invalidateAll(pattern)\<close> removes every tag the
  pattern matches; when the store throws, nothing is removed and the promise rejects.
\<close>

definition invalidateAll :: "faults \<Rightarrow> string \<Rightarrow> 'db world \<Rightarrow> error option \<times> 'db world" where
  "invalidateAll f pat w =
     (case invalidateFault f pat of
        Some e \<Rightarrow> (Some e, w\<lparr>trace := trace w @ [InvalidateAll pat]\<rparr>)
      | None \<Rightarrow>
          (None, w\<lparr>store := (\<lambda>t. if wildcardMatch pat t then None else store w t),
                   trace := trace w @ [InvalidateAll pat]\<rparr>))"

section \<open>The hook\<close>

text \<open>
  Lines 49-51, up to the call of the executor: the promise is created, not awaited. The
  outcome and the effect on the database are those of the executor; the world records
  them at the call, and \<open>awaited\<close> marks where the hook waits for them.
\<close>

definition fetchFromPrisma :: "'db params \<Rightarrow> 'db world \<Rightarrow> (error + payload) \<times> 'db world" where
  "fetchFromPrisma p w =
     (case query p (args p) (db w) of
        (r, d) \<Rightarrow> (r, w\<lparr>db := d, trace := trace w @ [QueryCalled]\<rparr>))"

definition awaited :: "'db world \<Rightarrow> 'db world" where
  "awaited w = w\<lparr>trace := trace w @ [QueryAwaited]\<rparr>"

text \<open>
  Modelled from the spec: the function that \<^verbatim>\<open>cache.define\<close> returns. With a
  positive ttl it looks the tag up, returns a hit, and on a miss awaits the bound fetch
  (\<^verbatim>\<open>modelsFetch\<close>, which awaits \<^verbatim>\<open>cb(params)\<close>) and stores the result under
  the tag; with ttl 0 nothing is stored. A failure of the store, or of the fetch inside,
  rejects the call. Expiry is not modelled.
\<close>

definition cacheFunction ::
  "env \<Rightarrow> faults \<Rightarrow> binding \<Rightarrow> 'db params \<Rightarrow> 'db world \<Rightarrow> (error + payload) \<times> 'db world" where
  "cacheFunction e f b p w =
     (let t = tagKey b @ ''~'' @ serialize e (notNullModel p) (operation p) (args p) in
      if 0 < ttl b then
        (case getFault f of
           Some x \<Rightarrow> (Inl x, w\<lparr>trace := trace w @ [StoreGet t]\<rparr>)
         | None \<Rightarrow>
            (case store w t of
               Some v \<Rightarrow> (Inr v, w\<lparr>trace := trace w @ [StoreGet t]\<rparr>)
             | None \<Rightarrow>
                (case fetchFromPrisma p (w\<lparr>trace := trace w @ [StoreGet t]\<rparr>) of
                   (Inl x, w1) \<Rightarrow> (Inl x, awaited w1)
                 | (Inr v, w1) \<Rightarrow>
                    (case setFault f of
                       Some x \<Rightarrow> (Inl x, (awaited w1)\<lparr>trace := trace (awaited w1) @ [StoreSet t]\<rparr>)
                     | None \<Rightarrow>
                        (Inr v, (awaited w1)\<lparr>store := (store w1)(t \<mapsto> v),
                                  trace := trace (awaited w1) @ [StoreSet t]\<rparr>)))))
      else (case fetchFromPrisma p w of (r, w1) \<Rightarrow> (r, awaited w1)))"

text \<open>Lines 54-77: \<^verbatim>\<open>models?.forEach\<close>.\<close>

fun defineModels :: "config \<Rightarrow> 'db params \<Rightarrow> rule list \<Rightarrow> 'db world \<Rightarrow> 'db world" where
  "defineModels cfg p [] w = w"
| "defineModels cfg p (r # rs) w =
     defineModels cfg p rs
       (if registry w (model r) = None \<and> model r = notNullModel p
           \<and> \<not> includesOpt (excludeModels cfg) (notNullModel p)
           \<and> \<not> includesOpt (excludeMethods r) (operation p)
        then cache_define (model r) (strOr (cacheKey r) (notNullModel p))
               (Some (numOr (cacheTime r) (cacheOptions_ttl cfg))) (cacheOptions_ttl cfg) w
        else w)"

text \<open>Lines 79-81: \<^verbatim>\<open>models?.find\<close>; a non-empty array has a truthy length.\<close>

definition excludedCacheMethodsInModels :: "config \<Rightarrow> 'db params \<Rightarrow> rule option" where
  "excludedCacheMethodsInModels cfg p =
     find (\<lambda>r. model r = notNullModel p \<and> orEmpty (excludeMethods r) \<noteq> [])
       (orEmpty (models cfg))"

text \<open>Lines 87-105.\<close>

definition defineModel :: "config \<Rightarrow> 'db params \<Rightarrow> 'db world \<Rightarrow> 'db world" where
  "defineModel cfg p w =
     (if registry w (notNullModel p) = None
         \<and> \<not> includesOpt (excludeModels cfg) (notNullModel p)
         \<and> \<not> (case excludedCacheMethodsInModels cfg p of
                 None \<Rightarrow> False
               | Some r \<Rightarrow> includesOpt (excludeMethods r) (operation p))
      then cache_define (notNullModel p) (notNullModel p) None (cacheOptions_ttl cfg) w
      else w)"

text \<open>Lines 53-106.\<close>

definition register :: "env \<Rightarrow> config \<Rightarrow> 'db params \<Rightarrow> 'db world \<Rightarrow> 'db world" where
  "register e cfg p w =
     (if operation p \<notin> set (excludedCacheMethods e cfg)
      then defineModel cfg p (defineModels cfg p (orEmpty (models cfg)) w)
      else w)"

text \<open>
  Lines 134-144. Every \<^verbatim>\<open>cache.invalidateAll\<close> of the two nested
  \<^verbatim>\<open>Promise.all\<close> is called before any of them is awaited, so all are attempted;
  the deletions are applied in the order of the calls, and the rejection reported is the
  first one in that order.
\<close>

definition relatedPatterns :: "config \<Rightarrow> 'db params \<Rightarrow> string list" where
  "relatedPatterns cfg p =
     concat (map (\<lambda>r. map (\<lambda>relatedModel. ''*'' @ relatedModel @ ''~*'')
                        (orEmpty (invalidateRelated r)))
               (filter (\<lambda>r. model r = notNullModel p) (orEmpty (models cfg))))"

fun invalidateEach :: "faults \<Rightarrow> string list \<Rightarrow> 'db world \<Rightarrow> error option \<times> 'db world" where
  "invalidateEach f [] w = (None, w)"
| "invalidateEach f (pat # pats) w =
     (case invalidateAll f pat w of
        (x, w1) \<Rightarrow>
          (case invalidateEach f pats w1 of
             (y, w2) \<Rightarrow> ((case x of None \<Rightarrow> y | Some _ \<Rightarrow> x), w2)))"

text \<open>Lines 118-125: the \<^verbatim>\<open>try\<close> around the cache function and its \<^verbatim>\<open>catch\<close>.\<close>

definition tryCache ::
  "env \<Rightarrow> faults \<Rightarrow> binding \<Rightarrow> 'db params \<Rightarrow> 'db world \<Rightarrow> (error + payload) \<times> 'db world" where
  "tryCache e f cacheFn p w =
     (case cacheFunction e f cacheFn p w of
        (Inr v, w2) \<Rightarrow> (Inr v, w2)
      | (Inl err, w2) \<Rightarrow>
         (case fetchFromPrisma p w2 of
            (Inl x, w3) \<Rightarrow> (Inl x, awaited w3)
          | (Inr v, w3) \<Rightarrow>
             (Inr v, (awaited w3)\<lparr>trace := trace (awaited w3) @ [ConsoleError err]\<rparr>)))"

text \<open>Lines 132-144: the awaited invalidations; the first rejection ends the hook.\<close>

definition invalidate :: "config \<Rightarrow> faults \<Rightarrow> 'db params \<Rightarrow> 'db world \<Rightarrow> error option \<times> 'db world" where
  "invalidate cfg f p w =
     (case invalidateAll f (''*'' @ notNullModel p @ ''~*'') w of
        (Some x, w3) \<Rightarrow> (Some x, w3)
      | (None, w3) \<Rightarrow>
         invalidateEach f (relatedPatterns cfg p)
           (w3\<lparr>trace := trace w3 @ [ConsoleLog (notNullModel p)]\<rparr>))"

text \<open>
  Lines 127-146: the executor is called and its promise kept in \<^verbatim>\<open>result\<close>
  without an \<^verbatim>\<open>await\<close>; the promise is only waited for when the hook returns it.
\<close>

definition direct ::
  "env \<Rightarrow> config \<Rightarrow> faults \<Rightarrow> 'db params \<Rightarrow> 'db world \<Rightarrow> (error + payload) \<times> 'db world" where
  "direct e cfg f p w =
     (case fetchFromPrisma p w of
        (result, w2) \<Rightarrow>
          if operation p \<in> set (defaultMutationMethods e) then
            (case invalidate cfg f p w2 of
               (Some x, w3) \<Rightarrow> (Inl x, w3)
             | (None, w3) \<Rightarrow> (result, awaited w3))
          else (result, awaited w2))"

text \<open>
  Lines 47-149. \<^verbatim>\<open>typeof cacheFunction === "function"\<close> is the case \<open>Some\<close> of the
  registry after registration; the other three tests of lines 112-117 are the condition.
\<close>

definition allOperations ::
  "env \<Rightarrow> config \<Rightarrow> faults \<Rightarrow> 'db params \<Rightarrow> 'db world \<Rightarrow> (error + payload) \<times> 'db world" where
  "allOperations e cfg f p w =
     (let w1 = register e cfg p w in
      case registry w1 (notNullModel p) of
        Some cacheFn \<Rightarrow>
          if \<not> includesOpt (excludeModels cfg) (notNullModel p)
             \<and> operation p \<notin> set (excludedCacheMethods e cfg)
             \<and> operation p \<notin> set (defaultMutationMethods e)
          then tryCache e f cacheFn p w1
          else direct e cfg f p w1
      | None \<Rightarrow> direct e cfg f p w1)"

text \<open>A sequence of invocations, each one finished before the next starts.\<close>

fun run :: "env \<Rightarrow> config \<Rightarrow> (faults \<times> 'db params) list \<Rightarrow> 'db world \<Rightarrow> 'db world" where
  "run e cfg [] w = w"
| "run e cfg ((f, p) # rest) w = run e cfg rest (snd (allOperations e cfg f p w))"

section \<open>Conditions named in the statements\<close>

text \<open>
  The tests under which lines 53-106 reach \<^verbatim>\<open>cache.define\<close> when the entity type of
  the operation has no binding: the entity type is not in \<^verbatim>\<open>excludeModels\<close> (lines 59
  and 89), the operation is not in the run-time exclusion set (line 53), and some rule
  for the entity type does not exclude the operation (lines 58-60) or no rule names the
  entity type (lines 79-90).
\<close>

abbreviation passesChecks :: "env \<Rightarrow> config \<Rightarrow> 'db params \<Rightarrow> bool" where
  "passesChecks e cfg p \<equiv>
     \<not> includesOpt (excludeModels cfg) (notNullModel p)
     \<and> operation p \<notin> set (excludedCacheMethods e cfg)
     \<and> ((\<exists>r \<in> set (orEmpty (models cfg)).
            model r = notNullModel p \<and> \<not> includesOpt (excludeMethods r) (operation p))
        \<or> (\<forall>r \<in> set (orEmpty (models cfg)). model r \<noteq> notNullModel p))"


section \<open>A sample installation\<close>

text \<open>
  Modelled from the spec: the exports of \<^verbatim>\<open>./cacheMethods\<close> are missing from the
  sources. The mutating kinds are create, update, delete and their bulk and upsert
  variants; the read kinds are the usual finders and aggregates. The theorems hold for
  any two lists; these are the values at which they are instantiated. The database is a
  counter of the writes applied, and the call key is the operation name and the
  arguments.
\<close>

definition prismaEnv :: env where
  "prismaEnv =
     \<lparr>defaultCacheMethods =
        [''findUnique'', ''findFirst'', ''findMany'', ''count'', ''aggregate'', ''groupBy''],
      defaultMutationMethods =
        [''create'', ''createMany'', ''update'', ''updateMany'', ''upsert'', ''delete'',
         ''deleteMany''],
      serialize = (\<lambda>m opn a. opn @ '':'' @ a)\<rparr>"

definition noFaults :: faults where
  "noFaults = \<lparr>getFault = None, setFault = None, invalidateFault = (\<lambda>pat. None)\<rparr>"

definition emptyWorld :: "nat world" where
  "emptyWorld = \<lparr>registry = Map.empty, store = Map.empty, db = 0, trace = []\<rparr>"

definition readQuery :: "string \<Rightarrow> nat \<Rightarrow> (error + payload) \<times> nat" where
  "readQuery a d = (Inr ''rows'', d)"

definition writeQuery :: "string \<Rightarrow> nat \<Rightarrow> (error + payload) \<times> nat" where
  "writeQuery a d = (Inr ''written'', Suc d)"

definition failingQuery :: "string \<Rightarrow> nat \<Rightarrow> (error + payload) \<times> nat" where
  "failingQuery a d = (Inl ''P2002'', d)"

definition readOp :: "string \<Rightarrow> string \<Rightarrow> nat params" where
  "readOp m opn = \<lparr>notNullModel = m, operation = opn, args = ''{}'', query = readQuery\<rparr>"

definition writeOp :: "string \<Rightarrow> string \<Rightarrow> nat params" where
  "writeOp m opn = \<lparr>notNullModel = m, operation = opn, args = ''{}'', query = writeQuery\<rparr>"

definition failingOp :: "string \<Rightarrow> string \<Rightarrow> nat params" where
  "failingOp m opn = \<lparr>notNullModel = m, operation = opn, args = ''{}'', query = failingQuery\<rparr>"

definition plainRule :: "string \<Rightarrow> rule" where
  "plainRule m =
     \<lparr>model = m, cacheTime = None, cacheKey = None, excludeMethods = None,
      invalidateRelated = None\<rparr>"

definition plainConfig :: "rule list \<Rightarrow> config" where
  "plainConfig rs =
     \<lparr>models = Some rs, globalCacheTime = Some 60, excludeModels = None,
      globalExcludeMethods = None\<rparr>"

definition ignoredExclusionConfig :: config where
  "ignoredExclusionConfig =
     (plainConfig [plainRule ''User''])\<lparr>globalExcludeMethods := Some [''findUniqueOrThrow'', ''count'']\<rparr>"

definition cachedUserConfig :: config where
  "cachedUserConfig = plainConfig [(plainRule ''User'')\<lparr>cacheTime := Some 300\<rparr>]"

definition storeDown :: faults where
  "storeDown = noFaults\<lparr>getFault := Some ''ECONNREFUSED''\<rparr>"

definition afterFindMany :: "nat world" where
  "afterFindMany =
     snd (allOperations prismaEnv cachedUserConfig noFaults (readOp ''User'' ''findMany'') emptyWorld)"

definition relatedConfig :: config where
  "relatedConfig =
     plainConfig [(plainRule ''User'')\<lparr>cacheTime := Some 300,
                                       invalidateRelated := Some [''Post'', ''Comment'']\<rparr>]"

definition primaryDown :: faults where
  "primaryDown =
     noFaults\<lparr>invalidateFault := (\<lambda>pat. if pat = ''*User~*'' then Some ''EIO'' else None)\<rparr>"

definition relatedDown :: faults where
  "relatedDown =
     noFaults\<lparr>invalidateFault := (\<lambda>pat. if pat = ''*Post~*'' then Some ''EIO'' else None)\<rparr>"

definition blogConfig :: config where
  "blogConfig =
     plainConfig [(plainRule ''Post'')\<lparr>cacheTime := Some 300, cacheKey := Some ''BlogPost''\<rparr>]"

definition afterBlogRead :: "nat world" where
  "afterBlogRead =
     snd (allOperations prismaEnv blogConfig noFaults (readOp ''Post'' ''findMany'') emptyWorld)"

definition articleConfig :: config where
  "articleConfig =
     plainConfig [(plainRule ''Post'')\<lparr>cacheTime := Some 300, cacheKey := Some ''Article''\<rparr>]"

definition afterArticleRead :: "nat world" where
  "afterArticleRead =
     snd (allOperations prismaEnv articleConfig noFaults (readOp ''Post'' ''findMany'') emptyWorld)"

definition zeroTtlConfig :: config where
  "zeroTtlConfig = plainConfig [(plainRule ''User'')\<lparr>cacheTime := Some 0\<rparr>]"


definition ruleExcludeConfig :: config where
  "ruleExcludeConfig =
     plainConfig [(plainRule ''User'')\<lparr>cacheTime := Some 300, excludeMethods := Some [''count'']\<rparr>]"




section \<open>Basic facts about the embedding\<close>

text \<open>
  Each part of the hook in closed form, and what it leaves alone: only registration
  touches the registry, only the cache function adds a tag, only invalidation removes one.
\<close>

text \<open>The definitions unfolded to evaluate the hook at a concrete input.\<close>

lemmas hook_defs =
  allOperations_def register_def defineModel_def excludedCacheMethodsInModels_def
  excludedCacheMethods_def tryCache_def direct_def invalidate_def relatedPatterns_def
  cacheFunction_def fetchFromPrisma_def awaited_def invalidateAll_def cache_define_def
  cacheOptions_ttl_def DEFAULT_CACHE_TIME_def includesOpt_def strOr_def numOr_def orEmpty_def
  Let_def

lemmas sample_defs =
  prismaEnv_def noFaults_def emptyWorld_def readQuery_def writeQuery_def failingQuery_def
  readOp_def writeOp_def failingOp_def plainRule_def plainConfig_def

lemma fetchFromPrisma_eq:
  "fetchFromPrisma p w =
     (fst (query p (args p) (db w)),
      w\<lparr>db := snd (query p (args p) (db w)), trace := trace w @ [QueryCalled]\<rparr>)"
  by (simp add: fetchFromPrisma_def split_beta)

lemma invalidateAll_eq:
  "invalidateAll f pat w =
     (invalidateFault f pat,
      w\<lparr>store := (\<lambda>t. if invalidateFault f pat = None \<and> wildcardMatch pat t then None else store w t),
        trace := trace w @ [InvalidateAll pat]\<rparr>)"
  by (cases "invalidateFault f pat") (simp_all add: invalidateAll_def)

lemma invalidateEach_Cons:
  "invalidateEach f (pat # pats) w =
     ((case invalidateFault f pat of
         None \<Rightarrow> fst (invalidateEach f pats (snd (invalidateAll f pat w)))
       | Some x \<Rightarrow> Some x),
      snd (invalidateEach f pats (snd (invalidateAll f pat w))))"
  by (simp add: invalidateAll_eq split_beta split: option.splits)

lemma registry_invalidateEach: "registry (snd (invalidateEach f pats w)) = registry w"
  by (induction pats arbitrary: w)
     (simp_all add: invalidateEach_Cons invalidateAll_eq del: invalidateEach.simps(2))

lemma registry_invalidate: "registry (snd (invalidate cfg f p w)) = registry w"
  by (simp add: invalidate_def invalidateAll_eq registry_invalidateEach split: option.splits)

lemma registry_cacheFunction: "registry (snd (cacheFunction e f b p w)) = registry w"
  by (simp add: cacheFunction_def Let_def fetchFromPrisma_eq awaited_def
           split: option.splits sum.splits)

lemma registry_tryCache: "registry (snd (tryCache e f b p w)) = registry w"
proof (cases "cacheFunction e f b p w")
  case (Pair r w2)
  have "registry w2 = registry w"
    using registry_cacheFunction [of e f b p w] Pair by simp
  then show ?thesis
    by (simp add: tryCache_def Pair fetchFromPrisma_eq awaited_def split: sum.splits)
qed

lemma registry_direct: "registry (snd (direct e cfg f p w)) = registry w"
proof (cases "invalidate cfg f p (snd (fetchFromPrisma p w))")
  case (Pair x w3)
  have "registry w3 = registry w"
    using registry_invalidate [of cfg f p "snd (fetchFromPrisma p w)"] Pair
    by (simp add: fetchFromPrisma_eq)
  then show ?thesis
    using Pair
    by (simp add: direct_def fetchFromPrisma_eq awaited_def split: option.splits)
qed

lemma registry_allOperations:
  "registry (snd (allOperations e cfg f p w)) = registry (register e cfg p w)"
  by (simp add: allOperations_def Let_def registry_tryCache registry_direct split: option.splits)

lemma registry_cache_define:
  "registry (cache_define name tk t dflt w) =
     (registry w)(name \<mapsto> \<lparr>tagKey = tk, ttl = (case t of None \<Rightarrow> dflt | Some n \<Rightarrow> n)\<rparr>)"
  by (simp add: cache_define_def)

lemma registry_defineModels:
  "registry (defineModels cfg p rs w) =
     (if registry w (notNullModel p) = None \<and> \<not> includesOpt (excludeModels cfg) (notNullModel p)
      then (case find (\<lambda>r. model r = notNullModel p
                          \<and> \<not> includesOpt (excludeMethods r) (operation p)) rs of
              None \<Rightarrow> registry w
            | Some r \<Rightarrow> (registry w)(notNullModel p \<mapsto>
                 \<lparr>tagKey = strOr (cacheKey r) (notNullModel p),
                  ttl = numOr (cacheTime r) (cacheOptions_ttl cfg)\<rparr>))
      else registry w)"
proof (induction rs arbitrary: w)
  case Nil
  show ?case by simp
next
  case (Cons r rs)
  show ?case
  proof (cases "registry w (model r) = None \<and> model r = notNullModel p
           \<and> \<not> includesOpt (excludeModels cfg) (notNullModel p)
           \<and> \<not> includesOpt (excludeMethods r) (operation p)")
    case True
    then show ?thesis
      by (simp add: Cons.IH registry_cache_define)
  next
    case False
    then show ?thesis
      by (auto simp add: Cons.IH)
  qed
qed

lemma no_applicable_rule:
  assumes "find (\<lambda>r. model r = T \<and> \<not> includesOpt (excludeMethods r) opn) rs = None"
  shows "(case find (\<lambda>r. model r = T \<and> orEmpty (excludeMethods r) \<noteq> []) rs of
            None \<Rightarrow> False
          | Some r \<Rightarrow> includesOpt (excludeMethods r) opn) = (\<exists>r \<in> set rs. model r = T)"
proof -
  have all: "\<forall>r \<in> set rs. model r = T \<longrightarrow> includesOpt (excludeMethods r) opn"
    using assms by (auto simp add: find_None_iff)
  show ?thesis
  proof (cases "find (\<lambda>r. model r = T \<and> orEmpty (excludeMethods r) \<noteq> []) rs")
    case None
    have "\<not> (\<exists>r \<in> set rs. model r = T)"
    proof
      assume "\<exists>r \<in> set rs. model r = T"
      then obtain r where r: "r \<in> set rs" "model r = T" by blast
      with all have "includesOpt (excludeMethods r) opn" by blast
      then have "orEmpty (excludeMethods r) \<noteq> []"
        by (auto simp add: includesOpt_def orEmpty_def split: option.splits)
      with r None show False by (auto simp add: find_None_iff)
    qed
    with None show ?thesis by simp
  next
    case (Some r)
    then have "r \<in> set rs" "model r = T"
      by (auto simp add: find_Some_iff)
    with all Some show ?thesis by auto
  qed
qed

lemma registry_register:
  "registry (register e cfg p w) =
     (if operation p \<in> set (excludedCacheMethods e cfg) \<or> registry w (notNullModel p) \<noteq> None
         \<or> includesOpt (excludeModels cfg) (notNullModel p)
      then registry w
      else (case find (\<lambda>r. model r = notNullModel p
                          \<and> \<not> includesOpt (excludeMethods r) (operation p)) (orEmpty (models cfg)) of
              Some r \<Rightarrow> (registry w)(notNullModel p \<mapsto>
                 \<lparr>tagKey = strOr (cacheKey r) (notNullModel p),
                  ttl = numOr (cacheTime r) (cacheOptions_ttl cfg)\<rparr>)
            | None \<Rightarrow>
                if \<exists>r \<in> set (orEmpty (models cfg)). model r = notNullModel p then registry w
                else (registry w)(notNullModel p \<mapsto>
                 \<lparr>tagKey = notNullModel p, ttl = cacheOptions_ttl cfg\<rparr>)))"
proof (cases "find (\<lambda>r. model r = notNullModel p
                 \<and> \<not> includesOpt (excludeMethods r) (operation p)) (orEmpty (models cfg))")
  case None
  show ?thesis
    using None no_applicable_rule [OF None]
    by (simp add: register_def defineModel_def excludedCacheMethodsInModels_def
          registry_defineModels registry_cache_define)
next
  case (Some r)
  then show ?thesis
    by (simp add: register_def defineModel_def registry_defineModels)
qed

lemma store_cache_define: "store (cache_define name tk t dflt w) = store w"
  by (simp add: cache_define_def)

lemma db_cache_define: "db (cache_define name tk t dflt w) = db w"
  by (simp add: cache_define_def)

lemma store_defineModels: "store (defineModels cfg p rs w) = store w"
  by (induction rs arbitrary: w) (simp_all add: store_cache_define)

lemma db_defineModels: "db (defineModels cfg p rs w) = db w"
  by (induction rs arbitrary: w) (simp_all add: db_cache_define)

lemma store_register: "store (register e cfg p w) = store w"
  by (simp add: register_def defineModel_def store_defineModels store_cache_define)

lemma db_register: "db (register e cfg p w) = db w"
  by (simp add: register_def defineModel_def db_defineModels db_cache_define)

lemma store_invalidateEach:
  "store (snd (invalidateEach f pats w)) =
     (\<lambda>t. if \<exists>pat \<in> set pats. invalidateFault f pat = None \<and> wildcardMatch pat t
          then None else store w t)"
proof (induction pats arbitrary: w)
  case Nil
  show ?case by simp
next
  case (Cons pat pats)
  show ?case
    by (rule ext) (auto simp add: invalidateEach_Cons Cons.IH invalidateAll_eq simp del: invalidateEach.simps(2))
qed

lemma store_invalidate:
  "store (snd (invalidate cfg f p w)) =
     (\<lambda>t. if invalidateFault f (''*'' @ notNullModel p @ ''~*'') = None
             \<and> (wildcardMatch (''*'' @ notNullModel p @ ''~*'') t
                \<or> (\<exists>pat \<in> set (relatedPatterns cfg p).
                      invalidateFault f pat = None \<and> wildcardMatch pat t))
          then None else store w t)"
  by (rule ext)
     (auto simp add: invalidate_def invalidateAll_eq store_invalidateEach split: option.splits)

lemma store_direct:
  "store (snd (direct e cfg f p w)) =
     (if operation p \<in> set (defaultMutationMethods e)
      then store (snd (invalidate cfg f p (snd (fetchFromPrisma p w))))
      else store w)"
  by (cases "invalidate cfg f p (snd (fetchFromPrisma p w))")
     (simp add: direct_def fetchFromPrisma_eq awaited_def split: option.splits)




lemma cacheOptions_ttl_globalExcludeMethods:
  "cacheOptions_ttl (cfg\<lparr>globalExcludeMethods := x\<rparr>) = cacheOptions_ttl cfg"
  by (simp add: cacheOptions_ttl_def)

lemma defineModels_globalExcludeMethods:
  "defineModels (cfg\<lparr>globalExcludeMethods := x\<rparr>) p rs w = defineModels cfg p rs w"
  by (induction rs arbitrary: w)
     (simp_all add: cacheOptions_ttl_globalExcludeMethods split del: if_split cong: if_cong)

lemma defineModel_globalExcludeMethods:
  "defineModel (cfg\<lparr>globalExcludeMethods := x\<rparr>) p w = defineModel cfg p w"
  by (simp add: defineModel_def excludedCacheMethodsInModels_def
        cacheOptions_ttl_globalExcludeMethods)

lemma relatedPatterns_globalExcludeMethods:
  "relatedPatterns (cfg\<lparr>globalExcludeMethods := x\<rparr>) p = relatedPatterns cfg p"
  by (simp add: relatedPatterns_def)

lemma invalidate_globalExcludeMethods:
  "invalidate (cfg\<lparr>globalExcludeMethods := x\<rparr>) f p w = invalidate cfg f p w"
  unfolding invalidate_def relatedPatterns_globalExcludeMethods ..

lemma direct_globalExcludeMethods:
  "direct e (cfg\<lparr>globalExcludeMethods := x\<rparr>) f p w = direct e cfg f p w"
  unfolding direct_def invalidate_globalExcludeMethods ..

section \<open>Global method exclusion (C10)\<close>

text \<open>
  Claim C10. The exclusion set used at run time is the intersection of the built-in
  \<^verbatim>\<open>defaultCacheMethods\<close> and the configured \<^verbatim>\<open>excludeMethods\<close>: a name that is
  not a default cache method is never in it, and for an operation with such a name the
  hook behaves exactly as if no \<^verbatim>\<open>excludeMethods\<close> had been configured.
\<close>

theorem excludeMethods_within_defaults:
  "set (excludedCacheMethods e cfg)
     = set (defaultCacheMethods e) \<inter> set (orEmpty (globalExcludeMethods cfg))
   \<and> (m \<notin> set (defaultCacheMethods e) \<longrightarrow> m \<notin> set (excludedCacheMethods e cfg))
   \<and> (operation p \<notin> set (defaultCacheMethods e) \<longrightarrow>
        allOperations e cfg f p w = allOperations e (cfg\<lparr>globalExcludeMethods := None\<rparr>) f p w)"
proof (intro conjI impI)
  show "set (excludedCacheMethods e cfg)
     = set (defaultCacheMethods e) \<inter> set (orEmpty (globalExcludeMethods cfg))"
    by (auto simp add: excludedCacheMethods_def)
  show "m \<notin> set (excludedCacheMethods e cfg)" if "m \<notin> set (defaultCacheMethods e)"
    using that by (simp add: excludedCacheMethods_def)
  show "allOperations e cfg f p w = allOperations e (cfg\<lparr>globalExcludeMethods := None\<rparr>) f p w"
    if "operation p \<notin> set (defaultCacheMethods e)"
  proof -
    have a: "operation p \<notin> set (excludedCacheMethods e cfg)"
      using that by (simp add: excludedCacheMethods_def)
    have b: "operation p \<notin> set (excludedCacheMethods e (cfg\<lparr>globalExcludeMethods := None\<rparr>))"
      by (simp add: excludedCacheMethods_def orEmpty_def)
    have r: "register e (cfg\<lparr>globalExcludeMethods := None\<rparr>) p w = register e cfg p w"
      using a b
      by (simp add: register_def defineModels_globalExcludeMethods
            defineModel_globalExcludeMethods)
    show ?thesis
      using a b
      by (simp add: allOperations_def r direct_globalExcludeMethods
            cong: option.case_cong if_cong)
  qed
qed

text \<open>
  With \<^verbatim>\<open>excludeMethods: ["findUniqueOrThrow", "count"]\<close> only \<^verbatim>\<open>count\<close> is
  excluded; a \<^verbatim>\<open>findUniqueOrThrow\<close> on \<^verbatim>\<open>User\<close> is cached.
\<close>

theorem excludeMethods_within_defaults_witness:
  "set (excludedCacheMethods prismaEnv ignoredExclusionConfig) = {''count''}
   \<and> ''findUniqueOrThrow'' \<in> set (orEmpty (globalExcludeMethods ignoredExclusionConfig))
   \<and> ''findUniqueOrThrow'' \<notin> set (defaultCacheMethods prismaEnv)
   \<and> ''findUniqueOrThrow'' \<notin> set (excludedCacheMethods prismaEnv ignoredExclusionConfig)
   \<and> allOperations prismaEnv ignoredExclusionConfig noFaults (readOp ''User'' ''findUniqueOrThrow'') emptyWorld
       = allOperations prismaEnv (ignoredExclusionConfig\<lparr>globalExcludeMethods := None\<rparr>) noFaults
           (readOp ''User'' ''findUniqueOrThrow'') emptyWorld
   \<and> store (snd (allOperations prismaEnv ignoredExclusionConfig noFaults
          (readOp ''User'' ''findUniqueOrThrow'') emptyWorld)) ''User~findUniqueOrThrow:{}''
       = Some ''rows''"
  using excludeMethods_within_defaults
    [of prismaEnv ignoredExclusionConfig "''findUniqueOrThrow''"
        "readOp ''User'' ''findUniqueOrThrow''" noFaults emptyWorld]
  by (simp add: hook_defs sample_defs ignoredExclusionConfig_def)

section \<open>Cache failure on a read (C1)\<close>

text \<open>
  Claim C1. When a read on a non-excluded entity type reaches the cache function and the
  cache function rejects, with whatever error, the hook answers by invoking the real
  executor directly: its result is the executor's outcome on the database as the cache
  call left it, so the cache error does not reach the caller and only a failure of the
  executor does. The fallback leaves the store as the cache call left it.
\<close>

theorem cache_failure_falls_back:
  assumes "\<not> includesOpt (excludeModels cfg) (notNullModel p)"
    and "operation p \<notin> set (excludedCacheMethods e cfg)"
    and "operation p \<notin> set (defaultMutationMethods e)"
    and "registry (register e cfg p w) (notNullModel p) = Some cacheFn"
    and "cacheFunction e f cacheFn p (register e cfg p w) = (Inl err, w2)"
  shows "fst (allOperations e cfg f p w) = fst (query p (args p) (db w2))
       \<and> db (snd (allOperations e cfg f p w)) = snd (query p (args p) (db w2))
       \<and> store (snd (allOperations e cfg f p w)) = store w2"
  using assms
  by (simp add: allOperations_def tryCache_def fetchFromPrisma_eq awaited_def split: sum.splits)

text \<open>The store refuses the lookup; \<^verbatim>\<open>findMany\<close> on \<^verbatim>\<open>User\<close> still returns the rows.\<close>

theorem cache_failure_falls_back_witness:
  "\<not> includesOpt (excludeModels cachedUserConfig) (notNullModel (readOp ''User'' ''findMany''))
   \<and> operation (readOp ''User'' ''findMany'') \<notin> set (excludedCacheMethods prismaEnv cachedUserConfig)
   \<and> operation (readOp ''User'' ''findMany'') \<notin> set (defaultMutationMethods prismaEnv)
   \<and> registry (register prismaEnv cachedUserConfig (readOp ''User'' ''findMany'') emptyWorld) ''User''
        = Some \<lparr>tagKey = ''User'', ttl = 300\<rparr>
   \<and> fst (cacheFunction prismaEnv storeDown \<lparr>tagKey = ''User'', ttl = 300\<rparr> (readOp ''User'' ''findMany'')
        (register prismaEnv cachedUserConfig (readOp ''User'' ''findMany'') emptyWorld)) = Inl ''ECONNREFUSED''
   \<and> fst (allOperations prismaEnv cachedUserConfig storeDown (readOp ''User'' ''findMany'') emptyWorld)
        = Inr ''rows''"
  using cache_failure_falls_back
    [of cachedUserConfig "readOp ''User'' ''findMany''" prismaEnv emptyWorld
        "\<lparr>tagKey = ''User'', ttl = 300\<rparr>" storeDown "''ECONNREFUSED''"
        "snd (cacheFunction prismaEnv storeDown \<lparr>tagKey = ''User'', ttl = 300\<rparr> (readOp ''User'' ''findMany'')
        (register prismaEnv cachedUserConfig (readOp ''User'' ''findMany'') emptyWorld))"]
  by (simp add: hook_defs sample_defs cachedUserConfig_def storeDown_def)

lemma afterFindMany_eq:
  "afterFindMany =
     \<lparr>registry = [''User'' \<mapsto> \<lparr>tagKey = ''User'', ttl = 300\<rparr>],
      store = [''User~findMany:{}'' \<mapsto> ''rows''],
      db = 0,
      trace = [Define ''User'', StoreGet ''User~findMany:{}'', QueryCalled, QueryAwaited,
               StoreSet ''User~findMany:{}'']\<rparr>"
  by (simp add: afterFindMany_def hook_defs sample_defs cachedUserConfig_def)

section \<open>Writes and invalidation (C2, C3, C4)\<close>

text \<open>
  Claim C2 states that a write whose executor fails propagates its failure and performs
  no invalidation, leaving the tags of the entity type untouched. Line 128 keeps the
  promise of the executor without awaiting it, so the invalidation of lines 131-145 runs
  whatever the outcome: with the tag \<^verbatim>\<open>User~findMany:{}\<close> in the store, an
  \<^verbatim>\<open>update\<close> on \<^verbatim>\<open>User\<close> that rejects with \<^verbatim>\<open>P2002\<close> returns that rejection,
  calls \<^verbatim>\<open>invalidateAll("*User~*")\<close> and deletes the tag.
\<close>

theorem failed_write_invalidates_anyway:
  "store afterFindMany ''User~findMany:{}'' = Some ''rows''
   \<and> ''update'' \<in> set (defaultMutationMethods prismaEnv)
   \<and> fst (query (failingOp ''User'' ''update'') (args (failingOp ''User'' ''update'')) (db afterFindMany))
        = Inl ''P2002''
   \<and> fst (allOperations prismaEnv cachedUserConfig noFaults (failingOp ''User'' ''update'') afterFindMany)
        = Inl ''P2002''
   \<and> store (snd (allOperations prismaEnv cachedUserConfig noFaults (failingOp ''User'' ''update'')
        afterFindMany)) ''User~findMany:{}'' = None
   \<and> InvalidateAll ''*User~*'' \<in> set (trace (snd (allOperations prismaEnv cachedUserConfig noFaults
        (failingOp ''User'' ''update'') afterFindMany)))"
  by (simp add: afterFindMany_eq hook_defs sample_defs cachedUserConfig_def)

text \<open>
  Claim C3 states that invalidation is only triggered once the write has finished. For a
  successful \<^verbatim>\<open>update\<close> on \<^verbatim>\<open>User\<close> the collaborators are called in this order:
  the executor is called, \<^verbatim>\<open>invalidateAll("*User~*")\<close> is called, the console logs,
  and only then, on return, is the executor's promise waited for.
\<close>

theorem invalidation_called_before_write_awaited:
  "''update'' \<in> set (defaultMutationMethods prismaEnv)
   \<and> fst (allOperations prismaEnv cachedUserConfig noFaults (writeOp ''User'' ''update'') afterFindMany)
        = Inr ''written''
   \<and> trace (snd (allOperations prismaEnv cachedUserConfig noFaults (writeOp ''User'' ''update'')
        afterFindMany))
      = trace afterFindMany @ [QueryCalled, InvalidateAll ''*User~*'', ConsoleLog ''User'', QueryAwaited]"
  by (simp add: afterFindMany_eq hook_defs sample_defs cachedUserConfig_def)

lemma trace_invalidateEach:
  "trace (snd (invalidateEach f pats w)) = trace w @ map InvalidateAll pats"
  by (induction pats arbitrary: w)
     (simp_all add: invalidateEach_Cons invalidateAll_eq del: invalidateEach.simps(2))

lemma fst_invalidateEach:
  "(fst (invalidateEach f pats w) = None) = (\<forall>pat \<in> set pats. invalidateFault f pat = None)"
  by (induction pats arbitrary: w)
     (auto simp add: invalidateEach_Cons simp del: invalidateEach.simps(2) split: option.splits)

lemma invalidate_eq:
  "invalidate cfg f p w =
     (case invalidateFault f (''*'' @ notNullModel p @ ''~*'') of
        Some x \<Rightarrow> (Some x, w\<lparr>trace := trace w @ [InvalidateAll (''*'' @ notNullModel p @ ''~*'')]\<rparr>)
      | None \<Rightarrow>
          invalidateEach f (relatedPatterns cfg p)
            (w\<lparr>store := (\<lambda>t. if wildcardMatch (''*'' @ notNullModel p @ ''~*'') t then None
                              else store w t),
               trace := trace w @ [InvalidateAll (''*'' @ notNullModel p @ ''~*''),
                                   ConsoleLog (notNullModel p)]\<rparr>))"
  by (simp add: invalidate_def invalidateAll_eq split: option.splits)

lemma direct_eq:
  "direct e cfg f p w =
     (if operation p \<in> set (defaultMutationMethods e) then
        (case fst (invalidate cfg f p (snd (fetchFromPrisma p w))) of
           Some x \<Rightarrow> (Inl x, snd (invalidate cfg f p (snd (fetchFromPrisma p w))))
         | None \<Rightarrow> (fst (query p (args p) (db w)),
                     awaited (snd (invalidate cfg f p (snd (fetchFromPrisma p w))))))
      else (fst (query p (args p) (db w)), awaited (snd (fetchFromPrisma p w))))"
  by (cases "invalidate cfg f p (snd (fetchFromPrisma p w))")
     (simp add: direct_def fetchFromPrisma_eq split: option.splits)

lemma allOperations_mutation:
  "operation p \<in> set (defaultMutationMethods e) \<Longrightarrow>
     allOperations e cfg f p w = direct e cfg f p (register e cfg p w)"
  by (simp add: allOperations_def Let_def split: option.splits)

text \<open>
  Claim C4, amended. A wildcard deletion that fails during the fan-out of a write is not
  caught. When the primary deletion \<^verbatim>\<open>*T~*\<close> fails, the hook rejects with that error
  and stops: after the call of the executor the only call made is that deletion, so no
  related deletion is attempted and nothing is logged. When the primary deletion
  succeeds, the deletion of every related type declared by a rule for \<open>T\<close> is attempted,
  also when another related deletion fails, and any such failure rejects the hook.
\<close>

theorem invalidation_failure_surfaces:
  assumes "operation p \<in> set (defaultMutationMethods e)"
  shows
    "(invalidateFault f (''*'' @ notNullModel p @ ''~*'') = Some x \<longrightarrow>
        fst (allOperations e cfg f p w) = Inl x
        \<and> trace (snd (allOperations e cfg f p w))
            = trace (register e cfg p w)
              @ [QueryCalled, InvalidateAll (''*'' @ notNullModel p @ ''~*'')])
   \<and> (invalidateFault f (''*'' @ notNullModel p @ ''~*'') = None \<longrightarrow>
        (\<forall>r \<in> set (orEmpty (models cfg)). model r = notNullModel p \<longrightarrow>
           (\<forall>relatedModel \<in> set (orEmpty (invalidateRelated r)).
              InvalidateAll (''*'' @ relatedModel @ ''~*'')
                \<in> set (trace (snd (allOperations e cfg f p w)))))
        \<and> ((\<exists>pat \<in> set (relatedPatterns cfg p). invalidateFault f pat \<noteq> None) \<longrightarrow>
              (\<exists>y. fst (allOperations e cfg f p w) = Inl y)))"
proof (intro conjI impI)
  let ?prim = "''*'' @ notNullModel p @ ''~*''"
  let ?w1 = "register e cfg p w"
  let ?w2 = "snd (fetchFromPrisma p ?w1)"
  have all: "allOperations e cfg f p w = direct e cfg f p ?w1"
    using assms by (rule allOperations_mutation)
  {
    assume bad: "invalidateFault f ?prim = Some x"
    have inv: "invalidate cfg f p ?w2 = (Some x, ?w2\<lparr>trace := trace ?w2 @ [InvalidateAll ?prim]\<rparr>)"
      using bad by (simp add: invalidate_eq)
    show "fst (allOperations e cfg f p w) = Inl x"
      using assms by (simp add: all direct_eq inv)
    have "snd (allOperations e cfg f p w) = ?w2\<lparr>trace := trace ?w2 @ [InvalidateAll ?prim]\<rparr>"
      using assms by (simp add: all direct_eq inv)
    then show "trace (snd (allOperations e cfg f p w))
                 = trace ?w1 @ [QueryCalled, InvalidateAll ?prim]"
      by (simp add: fetchFromPrisma_eq)
  }
  {
    assume good: "invalidateFault f ?prim = None"
    let ?w3 = "?w2\<lparr>store := (\<lambda>t. if wildcardMatch ?prim t then None else store ?w2 t),
                  trace := trace ?w2 @ [InvalidateAll ?prim, ConsoleLog (notNullModel p)]\<rparr>"
    have inv: "invalidate cfg f p ?w2 = invalidateEach f (relatedPatterns cfg p) ?w3"
      using good by (simp add: invalidate_eq)
    have tr: "set (map InvalidateAll (relatedPatterns cfg p))
                \<subseteq> set (trace (snd (allOperations e cfg f p w)))"
      using assms
      by (auto simp add: all direct_eq inv trace_invalidateEach awaited_def split: option.splits)
    show "\<forall>r \<in> set (orEmpty (models cfg)). model r = notNullModel p \<longrightarrow>
           (\<forall>relatedModel \<in> set (orEmpty (invalidateRelated r)).
              InvalidateAll (''*'' @ relatedModel @ ''~*'')
                \<in> set (trace (snd (allOperations e cfg f p w))))"
    proof (intro ballI impI)
      fix r relatedModel
      assume "r \<in> set (orEmpty (models cfg))" "model r = notNullModel p"
        "relatedModel \<in> set (orEmpty (invalidateRelated r))"
      then have "''*'' @ relatedModel @ ''~*'' \<in> set (relatedPatterns cfg p)"
        by (auto simp add: relatedPatterns_def)
      with tr show "InvalidateAll (''*'' @ relatedModel @ ''~*'')
                \<in> set (trace (snd (allOperations e cfg f p w)))"
        by auto
    qed
    show "\<exists>y. fst (allOperations e cfg f p w) = Inl y"
      if "\<exists>pat \<in> set (relatedPatterns cfg p). invalidateFault f pat \<noteq> None"
    proof -
      have "fst (invalidateEach f (relatedPatterns cfg p) ?w3) \<noteq> None"
        using that by (simp add: fst_invalidateEach)
      then obtain y where "fst (invalidateEach f (relatedPatterns cfg p) ?w3) = Some y"
        by blast
      then show ?thesis
        using assms by (simp add: all direct_eq inv)
    qed
  }
qed


text \<open>
  The claim as stated (the failure is logged, does not surface and does not block the
  remaining deletions) fails when the primary deletion throws: the write succeeds, the
  hook rejects with the store's error, and neither \<^verbatim>\<open>*Post~*\<close> nor
  \<^verbatim>\<open>*Comment~*\<close> is attempted.
\<close>

theorem invalidation_failure_counterexample:
  "''update'' \<in> set (defaultMutationMethods prismaEnv)
   \<and> query (writeOp ''User'' ''update'') (args (writeOp ''User'' ''update'')) (db emptyWorld)
        = (Inr ''written'', 1)
   \<and> fst (allOperations prismaEnv relatedConfig primaryDown (writeOp ''User'' ''update'') emptyWorld)
        = Inl ''EIO''
   \<and> trace (snd (allOperations prismaEnv relatedConfig primaryDown (writeOp ''User'' ''update'')
        emptyWorld))
        = [Define ''User'', QueryCalled, InvalidateAll ''*User~*'']"
  by (simp add: hook_defs sample_defs relatedConfig_def primaryDown_def)

text \<open>Both cases at \<^verbatim>\<open>update\<close> on \<^verbatim>\<open>User\<close>, related to \<^verbatim>\<open>Post\<close> and \<^verbatim>\<open>Comment\<close>.\<close>

theorem invalidation_failure_surfaces_witness:
  "operation (writeOp ''User'' ''update'') \<in> set (defaultMutationMethods prismaEnv)
   \<and> invalidateFault primaryDown ''*User~*'' = Some ''EIO''
   \<and> fst (allOperations prismaEnv relatedConfig primaryDown (writeOp ''User'' ''update'') emptyWorld)
        = Inl ''EIO''
   \<and> invalidateFault relatedDown ''*User~*'' = None
   \<and> invalidateFault relatedDown ''*Post~*'' \<noteq> None
   \<and> ''*Post~*'' \<in> set (relatedPatterns relatedConfig (writeOp ''User'' ''update''))
   \<and> InvalidateAll ''*Comment~*''
        \<in> set (trace (snd (allOperations prismaEnv relatedConfig relatedDown
                 (writeOp ''User'' ''update'') emptyWorld)))
   \<and> (\<exists>y. fst (allOperations prismaEnv relatedConfig relatedDown (writeOp ''User'' ''update'')
                 emptyWorld) = Inl y)"
  using invalidation_failure_surfaces
          [where p = "writeOp ''User'' ''update''" and e = prismaEnv and f = primaryDown
             and x = "''EIO''" and cfg = relatedConfig and w = emptyWorld]
        invalidation_failure_surfaces
          [where p = "writeOp ''User'' ''update''" and e = prismaEnv and f = relatedDown
             and x = "''EIO''" and cfg = relatedConfig and w = emptyWorld]
  by (simp add: hook_defs sample_defs relatedConfig_def primaryDown_def relatedDown_def)

lemma wildcardMatch_star:
  "wildcardMatch (CHR ''*'' # cs) t = (\<exists>u v. t = u @ v \<and> wildcardMatch cs v)"
proof (induction t)
  case Nil
  show ?case by simp
next
  case (Cons x xs)
  have "wildcardMatch (CHR ''*'' # cs) (x # xs)
          = (wildcardMatch cs (x # xs) \<or> wildcardMatch (CHR ''*'' # cs) xs)"
    by simp
  also have "\<dots> = (wildcardMatch cs (x # xs) \<or> (\<exists>u v. xs = u @ v \<and> wildcardMatch cs v))"
    by (simp only: Cons.IH)
  also have "\<dots> = (\<exists>u v. x # xs = u @ v \<and> wildcardMatch cs v)"
    by (auto simp add: Cons_eq_append_conv)
  finally show ?case .
qed

lemma wildcardMatch_only_star: "wildcardMatch ''*'' t"
  by (induction t) simp_all

lemma wildcardMatch_literal_star:
  "CHR ''*'' \<notin> set s \<Longrightarrow> wildcardMatch (s @ ''*'') t = prefix s t"
proof (induction s arbitrary: t)
  case Nil
  show ?case using wildcardMatch_only_star by simp
next
  case (Cons c cs)
  then show ?case by (cases t) auto
qed

lemma wildcardMatch_infix:
  assumes "CHR ''*'' \<notin> set s"
  shows "wildcardMatch (CHR ''*'' # s @ ''*'') t = sublist s t"
proof -
  have "wildcardMatch (CHR ''*'' # s @ ''*'') t = (\<exists>u v. t = u @ v \<and> prefix s v)"
    by (simp only: wildcardMatch_star wildcardMatch_literal_star [OF assms])
  also have "\<dots> = sublist s t"
    by (auto simp add: sublist_def prefix_def)
  finally show ?thesis .
qed

lemma model_pattern:
  assumes "CHR ''*'' \<notin> set m"
  shows "wildcardMatch (''*'' @ m @ ''~*'') t = sublist (m @ ''~'') t"
proof -
  have "CHR ''*'' \<notin> set (m @ ''~'')" using assms by simp
  from wildcardMatch_infix [OF this, of t] show ?thesis by simp
qed

lemma trace_direct_mutation:
  assumes "operation p \<in> set (defaultMutationMethods e)"
  shows "\<exists>evs. trace (snd (direct e cfg f p w))
           = trace w @ QueryCalled # InvalidateAll (''*'' @ notNullModel p @ ''~*'') # evs
         \<and> (\<forall>pat. InvalidateAll pat \<in> set evs \<longrightarrow> pat \<in> set (relatedPatterns cfg p))"
proof (cases "invalidateFault f (''*'' @ notNullModel p @ ''~*'')")
  case None
  let ?w2 = "snd (fetchFromPrisma p w)"
  let ?w3 = "?w2\<lparr>store := (\<lambda>t. if wildcardMatch (''*'' @ notNullModel p @ ''~*'') t then None
                              else store ?w2 t),
               trace := trace ?w2 @ [InvalidateAll (''*'' @ notNullModel p @ ''~*''),
                                   ConsoleLog (notNullModel p)]\<rparr>"
  have inv: "invalidate cfg f p ?w2 = invalidateEach f (relatedPatterns cfg p) ?w3"
    using None by (simp add: invalidate_eq)
  have "trace (snd (direct e cfg f p w))
          = trace ?w3 @ map InvalidateAll (relatedPatterns cfg p)
            @ (case fst (invalidateEach f (relatedPatterns cfg p) ?w3) of
                 None \<Rightarrow> [QueryAwaited] | Some x \<Rightarrow> [])"
    using assms
    by (simp add: direct_eq inv trace_invalidateEach awaited_def split: option.splits)
  then have "trace (snd (direct e cfg f p w))
          = trace w @ QueryCalled # InvalidateAll (''*'' @ notNullModel p @ ''~*'')
            # (ConsoleLog (notNullModel p) # map InvalidateAll (relatedPatterns cfg p)
            @ (case fst (invalidateEach f (relatedPatterns cfg p) ?w3) of
                 None \<Rightarrow> [QueryAwaited] | Some x \<Rightarrow> []))"
    by (simp add: fetchFromPrisma_eq)
  moreover have "\<forall>pat. InvalidateAll pat \<in> set (ConsoleLog (notNullModel p) # map InvalidateAll (relatedPatterns cfg p)
            @ (case fst (invalidateEach f (relatedPatterns cfg p) ?w3) of
                 None \<Rightarrow> [QueryAwaited] | Some x \<Rightarrow> [])) \<longrightarrow> pat \<in> set (relatedPatterns cfg p)"
    by (auto split: option.splits)
  ultimately show ?thesis by blast
next
  case (Some x)
  let ?w2 = "snd (fetchFromPrisma p w)"
  have inv: "invalidate cfg f p ?w2
               = (Some x, ?w2\<lparr>trace := trace ?w2 @ [InvalidateAll (''*'' @ notNullModel p @ ''~*'')]\<rparr>)"
    using Some by (simp add: invalidate_eq)
  have "snd (direct e cfg f p w)
          = ?w2\<lparr>trace := trace ?w2 @ [InvalidateAll (''*'' @ notNullModel p @ ''~*'')]\<rparr>"
    using assms by (simp add: direct_eq inv)
  then have "trace (snd (direct e cfg f p w))
          = trace w @ QueryCalled # InvalidateAll (''*'' @ notNullModel p @ ''~*'') # []"
    by (simp add: fetchFromPrisma_eq)
  then show ?thesis by auto
qed

lemma afterBlogRead_eq:
  "afterBlogRead =
     \<lparr>registry = [''Post'' \<mapsto> \<lparr>tagKey = ''BlogPost'', ttl = 300\<rparr>],
      store = [''BlogPost~findMany:{}'' \<mapsto> ''rows''],
      db = 0,
      trace = [Define ''Post'', StoreGet ''BlogPost~findMany:{}'', QueryCalled, QueryAwaited,
               StoreSet ''BlogPost~findMany:{}'']\<rparr>"
  by (simp add: afterBlogRead_def hook_defs sample_defs blogConfig_def)

lemma afterArticleRead_eq:
  "afterArticleRead =
     \<lparr>registry = [''Post'' \<mapsto> \<lparr>tagKey = ''Article'', ttl = 300\<rparr>],
      store = [''Article~findMany:{}'' \<mapsto> ''rows''],
      db = 0,
      trace = [Define ''Post'', StoreGet ''Article~findMany:{}'', QueryCalled, QueryAwaited,
               StoreSet ''Article~findMany:{}'']\<rparr>"
  by (simp add: afterArticleRead_def hook_defs sample_defs articleConfig_def)

section \<open>The ttl of a binding (C8)\<close>

text \<open>
  Claim C8, amended. A binding created for entity type \<open>T\<close> has the \<^verbatim>\<open>cacheTime\<close> of
  the rule that creates it (the first rule for \<open>T\<close> that does not exclude the operation)
  when that rule gives one other than 0, and the global default otherwise, also when the
  rule says 0 or no rule creates it; the global default is the \<^verbatim>\<open>cacheTime\<close> option, or
  0 when the option is not supplied.
\<close>

theorem binding_ttl:
  assumes "registry w (notNullModel p) = None"
    and "registry (snd (allOperations e cfg f p w)) (notNullModel p) = Some b"
  shows "ttl b =
           (case find (\<lambda>r. model r = notNullModel p
                         \<and> \<not> includesOpt (excludeMethods r) (operation p)) (orEmpty (models cfg)) of
              Some r \<Rightarrow>
                (case cacheTime r of
                   Some n \<Rightarrow> if n = 0 then cacheOptions_ttl cfg else n
                 | None \<Rightarrow> cacheOptions_ttl cfg)
            | None \<Rightarrow> cacheOptions_ttl cfg)
       \<and> cacheOptions_ttl cfg = (case globalCacheTime cfg of Some t \<Rightarrow> t | None \<Rightarrow> 0)"
proof
  show "cacheOptions_ttl cfg = (case globalCacheTime cfg of Some t \<Rightarrow> t | None \<Rightarrow> 0)"
    by (simp add: cacheOptions_ttl_def DEFAULT_CACHE_TIME_def split: option.splits)
  have "registry (register e cfg p w) (notNullModel p) = Some b"
    using assms(2) by (simp only: registry_allOperations)
  then show "ttl b =
           (case find (\<lambda>r. model r = notNullModel p
                         \<and> \<not> includesOpt (excludeMethods r) (operation p)) (orEmpty (models cfg)) of
              Some r \<Rightarrow>
                (case cacheTime r of
                   Some n \<Rightarrow> if n = 0 then cacheOptions_ttl cfg else n
                 | None \<Rightarrow> cacheOptions_ttl cfg)
            | None \<Rightarrow> cacheOptions_ttl cfg)"
    using assms(1)
    by (auto simp add: registry_register numOr_def split: if_splits option.splits)
qed

text \<open>
  The claim as stated (the rule's ttl whenever the rule provides one) fails for a rule
  that provides 0: under a global default of 60 the binding gets 60.
\<close>

theorem rule_ttl_zero_counterexample:
  "models zeroTtlConfig
     = Some [\<lparr>model = ''User'', cacheTime = Some 0, cacheKey = None, excludeMethods = None,
              invalidateRelated = None\<rparr>]
   \<and> globalCacheTime zeroTtlConfig = Some 60
   \<and> registry (snd (allOperations prismaEnv zeroTtlConfig noFaults (readOp ''User'' ''findMany'')
        emptyWorld)) ''User'' = Some \<lparr>tagKey = ''User'', ttl = 60\<rparr>"
  by (simp add: hook_defs sample_defs zeroTtlConfig_def)

text \<open>A rule with \<^verbatim>\<open>cacheTime: 300\<close> under a global default of 60.\<close>

theorem binding_ttl_witness:
  "registry emptyWorld (notNullModel (readOp ''User'' ''findMany'')) = None
   \<and> registry (snd (allOperations prismaEnv cachedUserConfig noFaults (readOp ''User'' ''findMany'')
        emptyWorld)) (notNullModel (readOp ''User'' ''findMany''))
        = Some \<lparr>tagKey = ''User'', ttl = 300\<rparr>
   \<and> ttl \<lparr>tagKey = ''User'', ttl = 300\<rparr> = 300
   \<and> cacheOptions_ttl cachedUserConfig = 60"
  using binding_ttl
          [where p = "readOp ''User'' ''findMany''" and e = prismaEnv and f = noFaults
             and cfg = cachedUserConfig and w = emptyWorld
             and b = "\<lparr>tagKey = ''User'', ttl = 300\<rparr>"]
  by (simp add: hook_defs sample_defs cachedUserConfig_def)

lemma registry_register_existing:
  "registry w T = Some b \<Longrightarrow> registry (register e cfg p w) T = Some b"
  by (auto simp add: registry_register split: option.splits)


lemma registry_run_existing:
  "registry w T = Some b \<Longrightarrow> registry (run e cfg ops w) T = Some b"
proof (induction ops arbitrary: w)
  case Nil
  then show ?case by simp
next
  case (Cons fp ops)
  obtain f p where fp: "fp = (f, p)" by (cases fp)
  have "registry (snd (allOperations e cfg f p w)) T = Some b"
    using Cons.prems by (simp add: registry_allOperations registry_register_existing)
  then show ?case
    unfolding fp by (simp add: Cons.IH)
qed





section \<open>Exclusion (C5)\<close>





section \<open>Bindings are created once (C6)\<close>

lemma run_append: "run e cfg (xs @ ys) w = run e cfg ys (run e cfg xs w)"
  by (induction xs arbitrary: w) auto

lemma registry_allOperations_other:
  "T \<noteq> notNullModel p \<Longrightarrow> registry (snd (allOperations e cfg f p w)) T = registry w T"
  by (auto simp add: registry_allOperations registry_register split: option.splits)

lemma binding_created_iff:
  assumes "registry w (notNullModel p) = None"
  shows "(registry (snd (allOperations e cfg f p w)) (notNullModel p) \<noteq> None)
           = passesChecks e cfg p"
proof (cases "find (\<lambda>r. model r = notNullModel p
                \<and> \<not> includesOpt (excludeMethods r) (operation p)) (orEmpty (models cfg))")
  case None
  then have "\<not> (\<exists>r \<in> set (orEmpty (models cfg)).
            model r = notNullModel p \<and> \<not> includesOpt (excludeMethods r) (operation p))"
    by (auto simp add: find_None_iff)
  then show ?thesis
    using assms None by (auto simp add: registry_allOperations registry_register)
next
  case (Some r)
  then have "\<exists>r \<in> set (orEmpty (models cfg)).
            model r = notNullModel p \<and> \<not> includesOpt (excludeMethods r) (operation p)"
    by (auto simp add: find_Some_iff)
  then show ?thesis
    using assms Some by (auto simp add: registry_allOperations registry_register)
qed

lemma registry_run_none:
  assumes "registry w T = None"
    and "\<forall>(f', p') \<in> set pre. notNullModel p' = T \<longrightarrow> \<not> passesChecks e cfg p'"
  shows "registry (run e cfg pre w) T = None"
  using assms
proof (induction pre arbitrary: w)
  case Nil
  then show ?case by simp
next
  case (Cons fp pre)
  obtain f p where fp: "fp = (f, p)" by (cases fp)
  have "registry (snd (allOperations e cfg f p w)) T = None"
  proof (cases "T = notNullModel p")
    case True
    then have "\<not> passesChecks e cfg p"
      using Cons.prems(2) fp by auto
    moreover have "registry w (notNullModel p) = None"
      using Cons.prems(1) True by simp
    ultimately show ?thesis
      using binding_created_iff [of w p e cfg f] True by blast
  next
    case False
    then show ?thesis
      using Cons.prems(1) by (simp add: registry_allOperations_other)
  qed
  moreover have "\<forall>(f', p') \<in> set pre. notNullModel p' = T \<longrightarrow> \<not> passesChecks e cfg p'"
    using Cons.prems(2) by auto
  ultimately show ?case
    unfolding fp by (simp add: Cons.IH)
qed

text \<open>
  Claim C6, amended. A binding that exists is never replaced: after any sequence of
  further invocations, reads or writes, under whatever configuration, the registry holds
  the same tag-key and ttl for that entity type. An invocation leaves the bindings of the
  other entity types as they are. When its own entity type has no binding, it creates one
  exactly when it passes the checks: the entity type is not in \<^verbatim>\<open>excludeModels\<close>, the
  operation is not in the run-time exclusion set, and some rule for the entity type does
  not exclude the operation or no rule names the entity type; being a read or a write
  plays no part. So in any sequence of invocations the entity type has no binding until
  the first invocation for it that passes the checks, that invocation creates the
  binding, and the binding is still the same after whatever follows.
\<close>

theorem binding_created_once:
  "(registry w T = Some b \<longrightarrow> registry (run e cfg ops w) T = Some b)
   \<and> (T \<noteq> notNullModel p \<longrightarrow> registry (snd (allOperations e cfg f p w)) T = registry w T)
   \<and> (registry w (notNullModel p) = None \<longrightarrow>
        (registry (snd (allOperations e cfg f p w)) (notNullModel p) \<noteq> None)
          = passesChecks e cfg p)
   \<and> (registry w (notNullModel p) = None
        \<and> (\<forall>(f', p') \<in> set pre.
               notNullModel p' = notNullModel p \<longrightarrow> \<not> passesChecks e cfg p')
        \<and> passesChecks e cfg p
      \<longrightarrow> registry (run e cfg pre w) (notNullModel p) = None
          \<and> registry (snd (allOperations e cfg f p (run e cfg pre w))) (notNullModel p) \<noteq> None
          \<and> registry (run e cfg (pre @ (f, p) # post) w) (notNullModel p)
              = registry (snd (allOperations e cfg f p (run e cfg pre w))) (notNullModel p))"
proof (intro conjI impI)
  show "registry (run e cfg ops w) T = Some b" if "registry w T = Some b"
    using that by (rule registry_run_existing)
  show "registry (snd (allOperations e cfg f p w)) T = registry w T" if "T \<noteq> notNullModel p"
    using that by (rule registry_allOperations_other)
  show "(registry (snd (allOperations e cfg f p w)) (notNullModel p) \<noteq> None)
          = passesChecks e cfg p"
    if "registry w (notNullModel p) = None"
    using that by (rule binding_created_iff)
  assume h: "registry w (notNullModel p) = None
        \<and> (\<forall>(f', p') \<in> set pre.
               notNullModel p' = notNullModel p \<longrightarrow> \<not> passesChecks e cfg p')
        \<and> passesChecks e cfg p"
  show none: "registry (run e cfg pre w) (notNullModel p) = None"
    using h by (intro registry_run_none) blast+
  show some: "registry (snd (allOperations e cfg f p (run e cfg pre w))) (notNullModel p) \<noteq> None"
    using binding_created_iff [OF none, of e cfg f] h by blast
  then obtain b where b: "registry (snd (allOperations e cfg f p (run e cfg pre w))) (notNullModel p)
                            = Some b"
    by blast
  have "registry (run e cfg post (snd (allOperations e cfg f p (run e cfg pre w)))) (notNullModel p)
          = Some b"
    using b by (rule registry_run_existing)
  then show "registry (run e cfg (pre @ (f, p) # post) w) (notNullModel p)
              = registry (snd (allOperations e cfg f p (run e cfg pre w))) (notNullModel p)"
    using b by (simp add: run_append)
qed


text \<open>
  The claim as stated (the binding is created on the first read) fails when a write
  comes first: a \<^verbatim>\<open>create\<close> on \<^verbatim>\<open>User\<close> in a fresh installation creates the
  binding, no read having been issued.
\<close>

theorem binding_created_by_write_counterexample:
  "''create'' \<in> set (defaultMutationMethods prismaEnv)
   \<and> registry emptyWorld ''User'' = None
   \<and> trace emptyWorld = []
   \<and> registry (snd (allOperations prismaEnv cachedUserConfig noFaults (writeOp ''User'' ''create'')
        emptyWorld)) ''User'' = Some \<lparr>tagKey = ''User'', ttl = 300\<rparr>"
  by (simp add: hook_defs sample_defs cachedUserConfig_def)

text \<open>
  A binding with ttl 300 outlives a write and a read issued under a configuration that
  would give 60; a \<^verbatim>\<open>findMany\<close> on \<^verbatim>\<open>User\<close> leaves \<^verbatim>\<open>Post\<close> without a binding;
  with \<^verbatim>\<open>count\<close> excluded by the rule for \<^verbatim>\<open>User\<close>, a \<^verbatim>\<open>count\<close> creates no
  binding, the \<^verbatim>\<open>create\<close> that follows does, and a later \<^verbatim>\<open>findMany\<close> finds it
  unchanged.
\<close>

theorem binding_created_once_witness:
  "registry afterFindMany ''User'' = Some \<lparr>tagKey = ''User'', ttl = 300\<rparr>
   \<and> registry (run prismaEnv zeroTtlConfig
        [(noFaults, writeOp ''User'' ''update''), (noFaults, readOp ''User'' ''count'')]
        afterFindMany) ''User'' = Some \<lparr>tagKey = ''User'', ttl = 300\<rparr>
   \<and> ''Post'' \<noteq> notNullModel (readOp ''User'' ''findMany'')
   \<and> registry (snd (allOperations prismaEnv ruleExcludeConfig noFaults (readOp ''User'' ''findMany'')
        emptyWorld)) ''Post'' = None
   \<and> registry emptyWorld (notNullModel (writeOp ''User'' ''create'')) = None
   \<and> \<not> passesChecks prismaEnv ruleExcludeConfig (readOp ''User'' ''count'')
   \<and> passesChecks prismaEnv ruleExcludeConfig (writeOp ''User'' ''create'')
   \<and> registry (run prismaEnv ruleExcludeConfig [(noFaults, readOp ''User'' ''count'')] emptyWorld)
        ''User'' = None
   \<and> registry (snd (allOperations prismaEnv ruleExcludeConfig noFaults (writeOp ''User'' ''create'')
        (run prismaEnv ruleExcludeConfig [(noFaults, readOp ''User'' ''count'')] emptyWorld)))
        ''User'' = Some \<lparr>tagKey = ''User'', ttl = 300\<rparr>
   \<and> registry (run prismaEnv ruleExcludeConfig
        ([(noFaults, readOp ''User'' ''count'')] @ (noFaults, writeOp ''User'' ''create'')
           # [(noFaults, readOp ''User'' ''findMany'')])
        emptyWorld) ''User'' = Some \<lparr>tagKey = ''User'', ttl = 300\<rparr>"
  using binding_created_once
          [where w = afterFindMany and T = "''User''" and b = "\<lparr>tagKey = ''User'', ttl = 300\<rparr>"
             and e = prismaEnv and cfg = zeroTtlConfig
             and ops = "[(noFaults, writeOp ''User'' ''update''), (noFaults, readOp ''User'' ''count'')]"
             and p = "readOp ''User'' ''findMany''" and f = noFaults and pre = "[]" and post = "[]"]
        binding_created_once
          [where w = emptyWorld and T = "''Post''" and b = "\<lparr>tagKey = ''User'', ttl = 300\<rparr>"
             and e = prismaEnv and cfg = ruleExcludeConfig and ops = "[]"
             and p = "readOp ''User'' ''findMany''" and f = noFaults and pre = "[]" and post = "[]"]
        binding_created_once
          [where w = emptyWorld and T = "''User''" and b = "\<lparr>tagKey = ''User'', ttl = 300\<rparr>"
             and e = prismaEnv and cfg = ruleExcludeConfig and ops = "[]"
             and p = "writeOp ''User'' ''create''" and f = noFaults
             and pre = "[(noFaults, readOp ''User'' ''count'')]"
             and post = "[(noFaults, readOp ''User'' ''findMany'')]"]
  by (simp add: afterFindMany_eq hook_defs sample_defs cachedUserConfig_def zeroTtlConfig_def
        ruleExcludeConfig_def)

section \<open>The form of a stored tag (C7)\<close>








section \<open>The primary pattern and the tag-key override (C9)\<close>

lemma relatedPatterns_iff:
  "(pat \<in> set (relatedPatterns cfg p))
     = (\<exists>r \<in> set (orEmpty (models cfg)). model r = notNullModel p
          \<and> (\<exists>relatedModel \<in> set (orEmpty (invalidateRelated r)).
                pat = ''*'' @ relatedModel @ ''~*''))"
  by (auto simp add: relatedPatterns_def)

text \<open>
  Claim C9, amended. For a write on entity type \<open>T\<close> the first deletion is called with
  the pattern \<^verbatim>\<open>*T~*\<close>, built from the entity type name, and every further pattern is
  \<^verbatim>\<open>*R~*\<close> for a type \<open>R\<close> that a rule for \<open>T\<close> lists in \<^verbatim>\<open>invalidateRelated\<close>; the
  rule's \<^verbatim>\<open>cacheKey\<close> is never used. An entry survives the write whenever the text
  \<^verbatim>\<open>T~\<close> does not occur in its tag and the pattern of no such related type matches it.
  (Entity type names contain no \<open>*\<close>.)
\<close>

theorem primary_pattern_from_model_name:
  assumes "operation p \<in> set (defaultMutationMethods e)"
    and "CHR ''*'' \<notin> set (notNullModel p)"
    and "store w t = Some v"
    and "\<not> sublist (notNullModel p @ ''~'') t"
    and "\<forall>r \<in> set (orEmpty (models cfg)). model r = notNullModel p \<longrightarrow>
           (\<forall>relatedModel \<in> set (orEmpty (invalidateRelated r)).
              \<not> wildcardMatch (''*'' @ relatedModel @ ''~*'') t)"
  shows "store (snd (allOperations e cfg f p w)) t = Some v
       \<and> (\<exists>evs. trace (snd (allOperations e cfg f p w))
             = trace (register e cfg p w)
               @ QueryCalled # InvalidateAll (''*'' @ notNullModel p @ ''~*'') # evs
           \<and> (\<forall>pat. InvalidateAll pat \<in> set evs \<longrightarrow>
                 (\<exists>r \<in> set (orEmpty (models cfg)). model r = notNullModel p
                    \<and> (\<exists>relatedModel \<in> set (orEmpty (invalidateRelated r)).
                          pat = ''*'' @ relatedModel @ ''~*''))))"
proof
  have all: "allOperations e cfg f p w = direct e cfg f p (register e cfg p w)"
    using assms(1) by (rule allOperations_mutation)
  have "wildcardMatch (''*'' @ notNullModel p @ ''~*'') t = sublist (notNullModel p @ ''~'') t"
    using assms(2) by (rule model_pattern)
  then have prim: "\<not> wildcardMatch (''*'' @ notNullModel p @ ''~*'') t"
    using assms(4) by blast
  have rel: "\<forall>pat \<in> set (relatedPatterns cfg p). \<not> wildcardMatch pat t"
  proof
    fix pat
    assume "pat \<in> set (relatedPatterns cfg p)"
    then obtain r relatedModel where
      "r \<in> set (orEmpty (models cfg))" "model r = notNullModel p"
      "relatedModel \<in> set (orEmpty (invalidateRelated r))" "pat = ''*'' @ relatedModel @ ''~*''"
      unfolding relatedPatterns_iff by (elim bexE conjE)
    with assms(5) show "\<not> wildcardMatch pat t" by blast
  qed
  from prim show "store (snd (allOperations e cfg f p w)) t = Some v"
    using assms(1,3) rel
    by (simp add: all store_direct store_invalidate fetchFromPrisma_eq store_register)
  from trace_direct_mutation [OF assms(1), of cfg f "register e cfg p w"] obtain evs where
    tr: "trace (snd (direct e cfg f p (register e cfg p w)))
           = trace (register e cfg p w)
             @ QueryCalled # InvalidateAll (''*'' @ notNullModel p @ ''~*'') # evs"
    and pats: "\<forall>pat. InvalidateAll pat \<in> set evs \<longrightarrow> pat \<in> set (relatedPatterns cfg p)"
    by (elim exE conjE)
  show "\<exists>evs. trace (snd (allOperations e cfg f p w))
             = trace (register e cfg p w)
               @ QueryCalled # InvalidateAll (''*'' @ notNullModel p @ ''~*'') # evs
           \<and> (\<forall>pat. InvalidateAll pat \<in> set evs \<longrightarrow>
                 (\<exists>r \<in> set (orEmpty (models cfg)). model r = notNullModel p
                    \<and> (\<exists>relatedModel \<in> set (orEmpty (invalidateRelated r)).
                          pat = ''*'' @ relatedModel @ ''~*'')))"
  proof (intro exI conjI allI impI)
    show "trace (snd (allOperations e cfg f p w))
             = trace (register e cfg p w)
               @ QueryCalled # InvalidateAll (''*'' @ notNullModel p @ ''~*'') # evs"
      unfolding all by (rule tr)
    fix pat
    assume "InvalidateAll pat \<in> set evs"
    with pats have "pat \<in> set (relatedPatterns cfg p)" by simp
    then show "\<exists>r \<in> set (orEmpty (models cfg)). model r = notNullModel p
                    \<and> (\<exists>relatedModel \<in> set (orEmpty (invalidateRelated r)).
                          pat = ''*'' @ relatedModel @ ''~*'')"
      by (simp only: relatedPatterns_iff)
  qed
qed

text \<open>
  The claim as stated (a \<^verbatim>\<open>cacheKey\<close> different from \<open>T\<close> keeps the entries from the
  primary deletion) fails when the tag still contains \<^verbatim>\<open>T~\<close>: with \<^verbatim>\<open>cacheKey\<close>
  \<^verbatim>\<open>BlogPost\<close> for \<^verbatim>\<open>Post\<close>, the leading wildcard of \<^verbatim>\<open>*Post~*\<close> matches
  \<^verbatim>\<open>BlogPost~findMany:{}\<close> and the write removes the entry.
\<close>

theorem cacheKey_entry_removed_counterexample:
  "models blogConfig
     = Some [\<lparr>model = ''Post'', cacheTime = Some 300, cacheKey = Some ''BlogPost'',
              excludeMethods = None, invalidateRelated = None\<rparr>]
   \<and> store afterBlogRead ''BlogPost~findMany:{}'' = Some ''rows''
   \<and> ''update'' \<in> set (defaultMutationMethods prismaEnv)
   \<and> relatedPatterns blogConfig (writeOp ''Post'' ''update'') = []
   \<and> fst (allOperations prismaEnv blogConfig noFaults (writeOp ''Post'' ''update'') afterBlogRead)
        = Inr ''written''
   \<and> store (snd (allOperations prismaEnv blogConfig noFaults (writeOp ''Post'' ''update'')
        afterBlogRead)) ''BlogPost~findMany:{}'' = None"
  by (simp add: afterBlogRead_eq hook_defs sample_defs blogConfig_def)

text \<open>With \<^verbatim>\<open>cacheKey\<close> \<^verbatim>\<open>Article\<close> for \<^verbatim>\<open>Post\<close> the entry survives an update of a post.\<close>

theorem primary_pattern_from_model_name_witness:
  "operation (writeOp ''Post'' ''update'') \<in> set (defaultMutationMethods prismaEnv)
   \<and> CHR ''*'' \<notin> set (notNullModel (writeOp ''Post'' ''update''))
   \<and> store afterArticleRead ''Article~findMany:{}'' = Some ''rows''
   \<and> \<not> sublist (notNullModel (writeOp ''Post'' ''update'') @ ''~'') ''Article~findMany:{}''
   \<and> orEmpty (models articleConfig)
        = [\<lparr>model = ''Post'', cacheTime = Some 300, cacheKey = Some ''Article'',
            excludeMethods = None, invalidateRelated = None\<rparr>]
   \<and> store (snd (allOperations prismaEnv articleConfig noFaults (writeOp ''Post'' ''update'')
        afterArticleRead)) ''Article~findMany:{}'' = Some ''rows''"
  using primary_pattern_from_model_name
          [where p = "writeOp ''Post'' ''update''" and e = prismaEnv and f = noFaults
             and cfg = articleConfig and w = afterArticleRead
             and t = "''Article~findMany:{}''" and v = "''rows''"]
  by (simp add: afterArticleRead_eq sample_defs orEmpty_def articleConfig_def sublist_code)

end
